theory Spec2Isabelle
  imports Main
begin

section \<open>Host-language values\<close>

text \<open>
  A raised fault is a value of \<open>JSError\<close>, and a method that can raise returns
  \<open>JSError + 'a\<close> (\<open>Inl\<close> the fault). The library itself raises with
  \<^verbatim>\<open>throw new Error(message)\<close> only; \<^verbatim>\<open>TypeError\<close> is what the host's \<^verbatim>\<open>JSON.stringify\<close> raises
  on a value it cannot serialize (a cyclic object, a \<^verbatim>\<open>BigInt\<close>).
\<close>

datatype JSError = Error string | TypeError string

text \<open>
  Run-time values whose static type is \<^verbatim>\<open>unknown\<close> or \<^verbatim>\<open>T | null | undefined\<close>: the two
  absence sentinels, the primitive values (numbers restricted to integers), \<^verbatim>\<open>Error\<close>
  objects, and any other value.
\<close>

datatype 'a JSValue =
    JSNull
  | JSUndefined
  | JSBoolean bool
  | JSNumber int
  | JSString string
  | JSErrorObject JSError
  | JSOther 'a

text \<open>
  The loose comparison \<^verbatim>\<open>value != null\<close> of ECMAScript: false for \<^verbatim>\<open>null\<close> and
  \<^verbatim>\<open>undefined\<close>, true for every other value.
\<close>

fun loose_not_null :: "'a JSValue \<Rightarrow> bool" where
  "loose_not_null JSNull = False"
| "loose_not_null JSUndefined = False"
| "loose_not_null _ = True"

subsection \<open>Numbers\<close>

text \<open>
  A \<^verbatim>\<open>number\<close> is an IEEE 754 double. The numbers that \<^verbatim>\<open>tryPromise\<close> computes with are
  integer-valued, infinite or \<^verbatim>\<open>NaN\<close>; \<open>Finite x\<close> is the double whose value is the
  integer \<open>x\<close> (the two zeros are not told apart).
\<close>

datatype JSNum = Finite int | PosInfinity | NegInfinity | NaN

text \<open>The number of binary digits of a natural number.\<close>

fun bit_length :: "nat \<Rightarrow> nat" where
  "bit_length n = (if n = 0 then 0 else Suc (bit_length (n div 2)))"

declare bit_length.simps [simp del]

text \<open>
  Rounding of an integer to a significand of 53 binary digits, to nearest, ties to the
  even significand, with the exponent not bounded: \<open>e\<close> digits are dropped, \<open>q\<close> is the
  significand kept and \<open>r\<close> the part dropped.
\<close>

definition round53 :: "int \<Rightarrow> int" where
  "round53 x =
     (let a = nat \<bar>x\<bar>;
          e = bit_length a - 53;
          q = a div 2 ^ e;
          r = a mod 2 ^ e;
          q' = (if 2 ^ e < 2 * r \<or> (2 * r = 2 ^ e \<and> odd q) then q + 1 else q)
      in sgn x * int (q' * 2 ^ e))"

text \<open>
  The double that an exact integer result is rounded to: a rounded magnitude of
  \<open>2 ^ 1024\<close> or more overflows to an infinity.
\<close>

definition round_double :: "int \<Rightarrow> JSNum" where
  "round_double x =
     (let y = round53 x
      in if 2 ^ 1024 \<le> \<bar>y\<bar> then (if 0 < y then PosInfinity else NegInfinity)
         else Finite y)"


fun js_negate :: "JSNum \<Rightarrow> JSNum" where
  "js_negate (Finite x) = Finite (- x)"
| "js_negate PosInfinity = NegInfinity"
| "js_negate NegInfinity = PosInfinity"
| "js_negate NaN = NaN"

text \<open>The operators \<^verbatim>\<open>+\<close>, \<^verbatim>\<open>-\<close>, \<^verbatim>\<open>*\<close>, \<^verbatim>\<open><\<close> and \<^verbatim>\<open>===\<close> on numbers.\<close>

fun js_plus :: "JSNum \<Rightarrow> JSNum \<Rightarrow> JSNum" where
  "js_plus (Finite x) (Finite y) = round_double (x + y)"
| "js_plus NaN b = NaN"
| "js_plus a NaN = NaN"
| "js_plus PosInfinity NegInfinity = NaN"
| "js_plus NegInfinity PosInfinity = NaN"
| "js_plus PosInfinity b = PosInfinity"
| "js_plus a PosInfinity = PosInfinity"
| "js_plus NegInfinity b = NegInfinity"
| "js_plus a NegInfinity = NegInfinity"

definition js_minus :: "JSNum \<Rightarrow> JSNum \<Rightarrow> JSNum" where
  "js_minus a b = js_plus a (js_negate b)"

fun js_times :: "JSNum \<Rightarrow> JSNum \<Rightarrow> JSNum" where
  "js_times (Finite x) (Finite y) = round_double (x * y)"
| "js_times NaN b = NaN"
| "js_times a NaN = NaN"
| "js_times (Finite x) PosInfinity =
     (if x = 0 then NaN else if 0 < x then PosInfinity else NegInfinity)"
| "js_times (Finite x) NegInfinity =
     (if x = 0 then NaN else if 0 < x then NegInfinity else PosInfinity)"
| "js_times PosInfinity (Finite y) =
     (if y = 0 then NaN else if 0 < y then PosInfinity else NegInfinity)"
| "js_times NegInfinity (Finite y) =
     (if y = 0 then NaN else if 0 < y then NegInfinity else PosInfinity)"
| "js_times PosInfinity PosInfinity = PosInfinity"
| "js_times PosInfinity NegInfinity = NegInfinity"
| "js_times NegInfinity PosInfinity = NegInfinity"
| "js_times NegInfinity NegInfinity = PosInfinity"

fun js_less :: "JSNum \<Rightarrow> JSNum \<Rightarrow> bool" where
  "js_less (Finite x) (Finite y) = (x < y)"
| "js_less NaN b = False"
| "js_less a NaN = False"
| "js_less a NegInfinity = False"
| "js_less PosInfinity b = False"
| "js_less NegInfinity b = True"
| "js_less a PosInfinity = True"

fun js_strict_equal :: "JSNum \<Rightarrow> JSNum \<Rightarrow> bool" where
  "js_strict_equal NaN b = False"
| "js_strict_equal a NaN = False"
| "js_strict_equal a b = (a = b)"

text \<open>\<^verbatim>\<open>Math.pow(2, n)\<close> for a natural number \<open>n\<close>.\<close>

definition Math_pow_2 :: "nat \<Rightarrow> JSNum" where
  "Math_pow_2 n = round_double (2 ^ n)"

text \<open>
  \<^verbatim>\<open>attempt++\<close> on a loop counter that starts at \<open>0\<close>. The counter is a natural number
  in the model: it never leaves the natural numbers up to \<open>2 ^ 53\<close>, where adding one
  rounds back to \<open>2 ^ 53\<close>.
\<close>

definition increment :: "nat \<Rightarrow> nat" where
  "increment attempt = nat (round53 (int attempt + 1))"

section \<open>Result: \<^verbatim>\<open>src/result.ts\<close>\<close>

datatype ('t, 'e) Result = Ok 't | Err 'e



text \<open>
  \<^verbatim>\<open>JSON.stringify\<close> is the host's serializer, a parameter of the two methods whose message
  embeds the serialized error. It either raises, and then no \<^verbatim>\<open>Error\<close> is constructed and
  its fault is the one that leaves the method, or it returns, and then \<open>Inr\<close> holds the
  text that the template literal makes of what it returned.
\<close>

fun unwrap :: "('e \<Rightarrow> JSError + string) \<Rightarrow> ('t, 'e) Result \<Rightarrow> JSError + 't" where
  "unwrap stringify (Ok v) = Inr v"
| "unwrap stringify (Err e) =
     (case stringify e of
        Inl fault \<Rightarrow> Inl fault
      | Inr serialized \<Rightarrow>
          Inl (Error (''Called unwrap on an Err value: '' @ serialized)))"

fun unwrapOr :: "('t, 'e) Result \<Rightarrow> 't \<Rightarrow> 't" where
  "unwrapOr (Ok v) defaultValue = v"
| "unwrapOr (Err e) defaultValue = defaultValue"

fun unwrapOrElse :: "('t, 'e) Result \<Rightarrow> ('e \<Rightarrow> 't) \<Rightarrow> 't" where
  "unwrapOrElse (Ok v) fn = v"
| "unwrapOrElse (Err e) fn = fn e"

fun expect :: "('e \<Rightarrow> JSError + string) \<Rightarrow> ('t, 'e) Result \<Rightarrow> string \<Rightarrow> JSError + 't" where
  "expect stringify (Ok v) message = Inr v"
| "expect stringify (Err e) message =
     (case stringify e of
        Inl fault \<Rightarrow> Inl fault
      | Inr serialized \<Rightarrow> Inl (Error (message @ '': '' @ serialized)))"


fun map_res :: "('t, 'e) Result \<Rightarrow> ('t \<Rightarrow> 'u) \<Rightarrow> ('u, 'e) Result" where
  "map_res (Ok v) fn = Ok (fn v)"
| "map_res (Err e) fn = Err e"

fun mapErr :: "('t, 'e) Result \<Rightarrow> ('e \<Rightarrow> 'f) \<Rightarrow> ('t, 'f) Result" where
  "mapErr (Ok v) fn = Ok v"
| "mapErr (Err e) fn = Err (fn e)"

fun flatMap :: "('t, 'e) Result \<Rightarrow> ('t \<Rightarrow> ('u, 'e) Result) \<Rightarrow> ('u, 'e) Result" where
  "flatMap (Ok v) fn = fn v"
| "flatMap (Err e) fn = Err e"

fun and_res :: "('t, 'e) Result \<Rightarrow> ('u, 'e) Result \<Rightarrow> ('u, 'e) Result" where
  "and_res (Ok v) other = other"
| "and_res (Err e) other = Err e"

fun or_res :: "('t, 'e) Result \<Rightarrow> ('t, 'e) Result \<Rightarrow> ('t, 'e) Result" where
  "or_res (Ok v) other = Ok v"
| "or_res (Err e) other = other"

fun match_res :: "('t, 'e) Result \<Rightarrow> ('t \<Rightarrow> 'u) \<Rightarrow> ('e \<Rightarrow> 'u) \<Rightarrow> 'u" where
  "match_res (Ok v) ok_handler err_handler = ok_handler v"
| "match_res (Err e) ok_handler err_handler = err_handler e"



subsection \<open>Generators and the iterator protocol\<close>

text \<open>
  A started generator object of type \<^verbatim>\<open>Generator<Y, R, N>\<close>, seen through \<^verbatim>\<open>next\<close>: it has
  either completed with its return value, or it is suspended at a \<^verbatim>\<open>yield\<close> and holds
  the yielded value together with what \<^verbatim>\<open>next(x)\<close> makes of it. A generator may yield
  forever, so the type is coinductive. Generator bodies are taken not to raise.
\<close>

codatatype ('y, 'r, 'n) Generator =
    Done 'r
  | Yield 'y "'n \<Rightarrow> ('y, 'r, 'n) Generator"

text \<open>
  \<^verbatim>\<open>generator.next(x)\<close> on a started generator. A suspended generator runs on with \<open>x\<close>.
  A completed generator stays completed, and what \<^verbatim>\<open>next\<close> then returns carries
  \<^verbatim>\<open>undefined\<close>, not the return value again: the generator given back has return values
  of type \<open>'r option\<close>, where \<open>None\<close> is that \<^verbatim>\<open>undefined\<close>.
\<close>

definition resume :: "('y, 'r, 'n) Generator \<Rightarrow> 'n \<Rightarrow> ('y, 'r option, 'n) Generator" where
  "resume g x = (case g of Done r \<Rightarrow> Done None | Yield y k \<Rightarrow> map_Generator (\<lambda>y. y) Some (k x))"

text \<open>
  \<^verbatim>\<open>Ok[Symbol.iterator]\<close> is \<^verbatim>\<open>return this.value\<close>. \<^verbatim>\<open>Err[Symbol.iterator]\<close> is
  \<^verbatim>\<open>return (yield this) as T\<close>: the value of the \<^verbatim>\<open>yield\<close> expression is the argument of the
  \<^verbatim>\<open>next\<close> call that resumes the generator, and the cast is erased at run time, so the
  return type of the model is the type of the values sent in.
\<close>

definition Ok_iterator :: "'t \<Rightarrow> (('t, 'e) Result, 't, 'n) Generator" where
  "Ok_iterator v = Done v"

definition Err_iterator :: "'e \<Rightarrow> (('t, 'e) Result, 'n, 'n) Generator" where
  "Err_iterator e = Yield (Err e) (\<lambda>sent. Done sent)"

text \<open>
  What a consumer sees that starts the iterator and then calls \<^verbatim>\<open>next(x)\<close> once for each
  \<open>x\<close> of a list, stopping at completion: the values yielded, and the completion value
  if completion was reached.
\<close>

fun consume :: "'n list \<Rightarrow> ('y, 'r, 'n) Generator \<Rightarrow> 'y list \<times> 'r option" where
  "consume [] g = (case g of Done r \<Rightarrow> ([], Some r) | Yield y k \<Rightarrow> ([y], None))"
| "consume (x # xs) g =
     (case g of
        Done r \<Rightarrow> ([], Some r)
      | Yield y k \<Rightarrow> (case consume xs (k x) of (ys, r) \<Rightarrow> (y # ys, r)))"

subsection \<open>\<^verbatim>\<open>ResultFactory.gen\<close>\<close>

text \<open>
  The \<^verbatim>\<open>while (!next.done)\<close> loop of the callable returned by \<^verbatim>\<open>gen\<close>. The first argument
  is a log of the arguments the loop has passed to \<^verbatim>\<open>generator.next\<close> so far; the code
  keeps no such log, it is here to state which resumptions happen. The loop runs as
  long as the generator yields successes, hence the option: \<open>None\<close> is a loop that
  never returns.
\<close>

partial_function (option) gen_loop ::
  "'u list \<Rightarrow> (('u, 'e) Result, ('t, 'e) Result, 'u) Generator
     \<Rightarrow> (('t, 'e) Result \<times> 'u list) option" where
  "gen_loop sent next =
     (case next of
        Done final \<Rightarrow> Some (final, sent)
      | Yield result k \<Rightarrow>
          (case result of
             Err e \<Rightarrow> Some (Err e, sent)
           | Ok v \<Rightarrow> gen_loop (sent @ [v]) (k v)))"

text \<open>
  \<^verbatim>\<open>gen(generatorFn)(...args)\<close>, where the argument is the generator
  \<^verbatim>\<open>generatorFn(...args)\<close> after its first \<^verbatim>\<open>next()\<close>.
\<close>

declare gen_loop.simps [code]

definition gen :: "(('u, 'e) Result, ('t, 'e) Result, 'u) Generator \<Rightarrow> ('t, 'e) Result option" where
  "gen started = map_option fst (gen_loop [] started)"

text \<open>
  The specification's reading of a procedure whose first \<open>n\<close> suspensions hand over
  successes: each is answered with its payload. The result is the list of these payloads
  and the state the procedure has then reached; \<open>None\<close> if one of the \<open>n\<close> is not a
  suspension with a success.
\<close>

fun drive ::
  "nat \<Rightarrow> (('u, 'e) Result, 'r, 'u) Generator
     \<Rightarrow> ('u list \<times> (('u, 'e) Result, 'r, 'u) Generator) option" where
  "drive 0 g = Some ([], g)"
| "drive (Suc n) g =
     (case g of
        Done r \<Rightarrow> None
      | Yield result k \<Rightarrow>
          (case result of
             Err e \<Rightarrow> None
           | Ok v \<Rightarrow> map_option (\<lambda>(vs, g'). (v # vs, g')) (drive n (k v))))"

subsection \<open>\<^verbatim>\<open>ResultFactory.all\<close> and \<^verbatim>\<open>ResultFactory.partition\<close>\<close>

text \<open>The \<^verbatim>\<open>for ... of\<close> loop of \<^verbatim>\<open>all\<close>, with the array \<^verbatim>\<open>values\<close> built so far.\<close>

fun all_loop :: "'t list \<Rightarrow> ('t, 'e) Result list \<Rightarrow> ('t list, 'e) Result" where
  "all_loop values [] = Ok values"
| "all_loop values (Err e # results) = Err e"
| "all_loop values (Ok v # results) = all_loop (values @ [v]) results"

definition all_results :: "('t, 'e) Result list \<Rightarrow> ('t list, 'e) Result" where
  "all_results results = all_loop [] results"

record ('t, 'e) Partitioned =
  ok :: "'t list"
  err :: "'e list"

fun partition_loop ::
  "'t list \<Rightarrow> 'e list \<Rightarrow> ('t, 'e) Result list \<Rightarrow> ('t, 'e) Partitioned" where
  "partition_loop okValues errValues [] = \<lparr>ok = okValues, err = errValues\<rparr>"
| "partition_loop okValues errValues (Ok v # results) =
     partition_loop (okValues @ [v]) errValues results"
| "partition_loop okValues errValues (Err e # results) =
     partition_loop okValues (errValues @ [e]) results"

definition partition_results :: "('t, 'e) Result list \<Rightarrow> ('t, 'e) Partitioned" where
  "partition_results results = partition_loop [] [] results"

subsection \<open>\<^verbatim>\<open>ResultFactory.tryPromise\<close>\<close>

datatype Backoff = linear | exponential

text \<open>
  The \<^verbatim>\<open>retry\<close> object. \<^verbatim>\<open>times\<close> and \<^verbatim>\<open>delayMs\<close> are integers; the number that the code
  computes with is \<open>round_double\<close> of the field, which is the field itself when it is a
  double.
\<close>

record Retry =
  retry_times :: int
  retry_delayMs :: int
  retry_backoff :: "Backoff option"

text \<open>
  The configuration object. The thunk \<^verbatim>\<open>try\<close> is given by the outcome of each of its
  invocations, counted from zero: \<open>Inr\<close> a value the promise resolves with, \<open>Inl\<close> the
  fault it rejects with (or the thunk raises). Every attempt is taken to settle, and
  \<^verbatim>\<open>catch\<close> not to raise.
\<close>

record ('t, 'a) Config =
  tryFn :: "nat \<Rightarrow> 'a JSValue + 't"
  catchFn :: "('a JSValue \<Rightarrow> 'a JSValue) option"
  retry :: "Retry option"

text \<open>
  What the call does to its environment: how often the thunk has been invoked, and the
  delays passed to \<^verbatim>\<open>setTimeout\<close>, in order.
\<close>

record World =
  calls :: nat
  timers :: "JSNum list"

definition invoke :: "('t, 'a) Config \<Rightarrow> World \<Rightarrow> ('a JSValue + 't) \<times> World" where
  "invoke config w = (tryFn config (calls w), w\<lparr>calls := Suc (calls w)\<rparr>)"

definition setTimeout :: "JSNum \<Rightarrow> World \<Rightarrow> World" where
  "setTimeout delay w = w\<lparr>timers := timers w @ [delay]\<rparr>"

text \<open>
  The \<^verbatim>\<open>for\<close> loop, with the statement after it as the last branch. A counter that has
  reached \<open>2 ^ 53\<close> is not moved by \<^verbatim>\<open>attempt++\<close>, so the loop need not end: \<open>None\<close> is a
  call that never returns.
\<close>

partial_function (option) tryPromise_loop ::
  "('t, 'a) Config \<Rightarrow> JSNum \<Rightarrow> nat \<Rightarrow> World \<Rightarrow> (('t, 'a JSValue) Result \<times> World) option" where
  "tryPromise_loop config maxAttempts attempt w =
     (if js_less (Finite (int attempt)) maxAttempts then
        (case invoke config w of
           (Inr value, w') \<Rightarrow> Some (Ok value, w')
         | (Inl error, w') \<Rightarrow>
             (let isLastAttempt =
                    js_strict_equal (Finite (int attempt)) (js_minus maxAttempts (Finite 1))
              in
              if isLastAttempt then
                (let mappedError = (case catchFn config of Some f \<Rightarrow> f error | None \<Rightarrow> error)
                 in Some (Err mappedError, w'))
              else
                tryPromise_loop config maxAttempts (increment attempt)
                  (case retry config of
                     Some r \<Rightarrow>
                       (let delay =
                          (if retry_backoff r = Some exponential
                           then js_times (round_double (retry_delayMs r)) (Math_pow_2 attempt)
                           else round_double (retry_delayMs r))
                        in setTimeout delay w')
                   | None \<Rightarrow> w')))
      else Some (Err (JSErrorObject (Error ''Unexpected retry error'')), w))"

declare tryPromise_loop.simps [code]

definition tryPromise ::
  "('t, 'a) Config \<Rightarrow> (('t, 'a JSValue) Result \<times> World) option" where
  "tryPromise config =
     (let maxAttempts =
        (case retry config of
           Some r \<Rightarrow> js_plus (round_double (retry_times r)) (Finite 1)
         | None \<Rightarrow> Finite 1)
      in tryPromise_loop config maxAttempts 0 \<lparr>calls = 0, timers = []\<rparr>)"


section \<open>Option: \<^verbatim>\<open>src/option.ts\<close>\<close>

text \<open>The classes \<^verbatim>\<open>Some\<close> and \<^verbatim>\<open>None\<close>, renamed apart from the constructors of HOL.\<close>

datatype 't Option = SomeOpt 't | NoneOpt

fun isSome :: "'t Option \<Rightarrow> bool" where
  "isSome (SomeOpt v) = True"
| "isSome NoneOpt = False"



fun expect_opt :: "'t Option \<Rightarrow> string \<Rightarrow> JSError + 't" where
  "expect_opt (SomeOpt v) message = Inr v"
| "expect_opt NoneOpt message = Inl (Error message)"

fun okOr :: "'t Option \<Rightarrow> 'e \<Rightarrow> ('t, 'e) Result" where
  "okOr (SomeOpt v) error = Ok v"
| "okOr NoneOpt error = Err error"

definition fromNullable :: "'a JSValue \<Rightarrow> 'a JSValue Option" where
  "fromNullable value = (if loose_not_null value then SomeOpt value else NoneOpt)"

section \<open>Properties\<close>

subsection \<open>Aggregate combinators\<close>

text \<open>
  Every array of results consists of successes only, or of a run of successes, a first
  failure and a rest.
\<close>

lemma results_shape:
  "(\<exists>vs. rs = map Ok vs) \<or> (\<exists>vs e rest. rs = map Ok vs @ Err e # rest)"
proof (induction rs)
  case Nil
  then show ?case by simp
next
  case (Cons r rs)
  show ?case
  proof (cases r)
    case (Ok v)
    from Cons.IH show ?thesis
    proof
      assume "\<exists>vs. rs = map Ok vs"
      then obtain vs where "rs = map Ok vs" ..
      then have "r # rs = map Ok (v # vs)" using Ok by simp
      then have "\<exists>ws. r # rs = map Ok ws" by (rule exI)
      then show ?thesis by (rule disjI1)
    next
      assume "\<exists>vs e rest. rs = map Ok vs @ Err e # rest"
      then obtain vs e rest where "rs = map Ok vs @ Err e # rest" by blast
      then have "r # rs = map Ok (v # vs) @ Err e # rest" using Ok by simp
      then have "\<exists>ws e' rest'. r # rs = map Ok ws @ Err e' # rest'" by (intro exI)
      then show ?thesis by (rule disjI2)
    qed
  next
    case (Err e)
    then have "r # rs = map Ok [] @ Err e # rs" by simp
    then have "\<exists>ws e' rest'. r # rs = map Ok ws @ Err e' # rest'" by (intro exI)
    then show ?thesis by (rule disjI2)
  qed
qed

lemma all_loop_successes:
  "all_loop acc (map Ok vs @ rest) = all_loop (acc @ vs) rest"
  by (induction vs arbitrary: acc) simp_all

text \<open>
  Claim C4. For every finite sequence of outcomes, \<^verbatim>\<open>all\<close> returns the first failure of the
  sequence, with its error unchanged, whatever follows that failure (the rest of the
  sequence is arbitrary, so nothing after the first failure is inspected); a sequence
  without failure gives the success of all payloads in their order; the empty sequence
  gives the success of the empty sequence.
\<close>

theorem all_results_first_failure:
  "all_results (map Ok vs @ Err e # rest) = Err e
   \<and> all_results (map Ok vs) = Ok vs
   \<and> all_results [] = Ok []"
  using all_loop_successes [of "[]" vs "Err e # rest"] all_loop_successes [of "[]" vs "[]"]
  by (simp add: all_results_def)

lemma partition_loop_acc:
  "partition_loop oks errs rs =
     \<lparr>ok = oks @ [v. Ok v \<leftarrow> rs], err = errs @ [e. Err e \<leftarrow> rs]\<rparr>"
proof (induction rs arbitrary: oks errs)
  case Nil
  show ?case by simp
next
  case (Cons r rs)
  show ?case by (cases r) (simp_all add: Cons.IH)
qed

lemma length_split_results:
  "length [v. Ok v \<leftarrow> rs] + length [e. Err e \<leftarrow> rs] = length rs"
proof (induction rs)
  case Nil
  show ?case by simp
next
  case (Cons r rs)
  then show ?case by (cases r) simp_all
qed

text \<open>
  Claim C5. For every finite sequence of outcomes, \<^verbatim>\<open>partition\<close> returns the payloads of
  all successes and the errors of all failures of the whole sequence, each in the order
  of the input, and the lengths of the two outputs add up to the length of the input.
\<close>

theorem partition_results_full_pass:
  "partition_results rs = \<lparr>ok = [v. Ok v \<leftarrow> rs], err = [e. Err e \<leftarrow> rs]\<rparr>
   \<and> length (ok (partition_results rs)) + length (err (partition_results rs)) = length rs"
  by (simp add: partition_results_def partition_loop_acc length_split_results)

subsection \<open>Methods of a result\<close>

text \<open>
  Claim C9. Functor laws: mapping the identity over an outcome gives an equal outcome,
  and mapping \<open>f\<close> then \<open>g\<close> over a success equals mapping their composition.
\<close>

theorem map_res_functor_laws:
  "map_res r (\<lambda>x. x) = r
   \<and> map_res (map_res (Ok v) f) g = map_res (Ok v) (\<lambda>x. g (f x))"
  by (cases r) simp_all

lemma unwrap_serializer_fault:
  "stringify e = Inl fault \<Longrightarrow> unwrap stringify (Err e) = Inl fault"
  by simp




subsection \<open>\<^verbatim>\<open>fromNullable\<close>\<close>

text \<open>
  Claim C7. \<^verbatim>\<open>fromNullable\<close> returns \<^verbatim>\<open>None\<close> exactly for \<^verbatim>\<open>null\<close> and \<^verbatim>\<open>undefined\<close>, and
  \<^verbatim>\<open>Some\<close> of its input for every other value; the falsy values \<^verbatim>\<open>0\<close>, the empty string
  and \<^verbatim>\<open>false\<close> are present.
\<close>

theorem fromNullable_absent_iff:
  "(fromNullable value = NoneOpt) = (value = JSNull \<or> value = JSUndefined)
   \<and> (fromNullable value = SomeOpt value) = (value \<noteq> JSNull \<and> value \<noteq> JSUndefined)
   \<and> fromNullable (JSNumber 0) = SomeOpt (JSNumber 0)
   \<and> fromNullable (JSString []) = SomeOpt (JSString [])
   \<and> fromNullable (JSBoolean False) = SomeOpt (JSBoolean False)"
  by (cases "value") (simp_all add: fromNullable_def)

subsection \<open>The propagation engine\<close>

text \<open>
  One turn of the loop for each state of the generator.
\<close>

lemma gen_loop_Done: "gen_loop sent (Done final) = Some (final, sent)"
  by (subst gen_loop.simps) simp

lemma gen_loop_Yield_Err: "gen_loop sent (Yield (Err e) k) = Some (Err e, sent)"
  by (subst gen_loop.simps) simp

lemma gen_loop_Yield_Ok: "gen_loop sent (Yield (Ok v) k) = gen_loop (sent @ [v]) (k v)"
  by (subst gen_loop.simps) simp

text \<open>
  Driving a procedure through \<open>n\<close> successes is what the loop does on it: the loop
  goes on from the state reached, having sent exactly the payloads.
\<close>

lemma gen_loop_drive:
  "drive n g = Some (vs, g') \<Longrightarrow> gen_loop sent g = gen_loop (sent @ vs) g'"
proof (induction n arbitrary: g sent vs)
  case 0
  then show ?case by simp
next
  case (Suc n)
  show ?case
  proof (cases g)
    case (Done r)
    with Suc.prems show ?thesis by simp
  next
    case (Yield result k)
    show ?thesis
    proof (cases result)
      case (Err e)
      with Yield Suc.prems show ?thesis by simp
    next
      case (Ok v)
      with Yield Suc.prems obtain ws where
        rest: "drive n (k v) = Some (ws, g')" and vs: "vs = v # ws"
        by auto
      have "gen_loop sent g = gen_loop (sent @ [v]) (k v)"
        using Yield Ok by (simp add: gen_loop_Yield_Ok)
      also have "\<dots> = gen_loop ((sent @ [v]) @ ws) g'"
        using rest by (rule Suc.IH)
      finally show ?thesis using vs by simp
    qed
  qed
qed

text \<open>
  Claim C1. If the procedure hands over \<open>n\<close> successes and then a failure, the
  callable returned by \<^verbatim>\<open>gen\<close> returns that failure with the same error, and the values
  it has sent into the generator are the \<open>n\<close> payloads and no more: the generator is
  not resumed after the failure, so whatever it would do next (the continuation \<open>k\<close> is
  arbitrary, and may yield forever) is not run.
\<close>

theorem gen_short_circuit:
  assumes "drive n started = Some (vs, Yield (Err e) k)"
  shows "gen started = Some (Err e) \<and> gen_loop [] started = Some (Err e, vs)"
proof -
  have "gen_loop [] started = gen_loop ([] @ vs) (Yield (Err e) k)"
    using assms by (rule gen_loop_drive)
  then have "gen_loop [] started = Some (Err e, vs)"
    by (simp add: gen_loop_Yield_Err)
  then show ?thesis by (simp add: gen_def)
qed

theorem gen_short_circuit_witness:
  "drive 1 (Yield (Ok (1::nat)) (\<lambda>a. Yield (Err ''B'') (\<lambda>b. Yield (Ok 3) (\<lambda>c. Done (Ok c)))))
     = Some ([1], Yield (Err ''B'') (\<lambda>b. Yield (Ok 3) (\<lambda>c. Done (Ok c))))
   \<and> gen (Yield (Ok (1::nat)) (\<lambda>a. Yield (Err ''B'') (\<lambda>b. Yield (Ok 3) (\<lambda>c. Done (Ok c)))))
     = Some (Err ''B'' :: (nat, string) Result)"
proof -
  let ?tail = "\<lambda>b::nat. Yield (Ok (3::nat)) (\<lambda>c. Done (Ok c :: (nat, string) Result))"
  have d: "drive 1 (Yield (Ok (1::nat)) (\<lambda>a. Yield (Err ''B'') ?tail))
             = Some ([1], Yield (Err ''B'') ?tail)"
    by simp
  from gen_short_circuit [OF d] d show ?thesis by simp
qed

text \<open>
  The log is only written: the result of the loop does not depend on it, and the log
  returned extends the log given.
\<close>

lemma gen_loop_log:
  assumes "gen_loop sent g = Some y"
  shows "\<exists>ws. snd y = sent @ ws \<and> (\<forall>sent'. gen_loop sent' g = Some (fst y, sent' @ ws))"
proof (rule gen_loop.raw_induct
    [where P = "\<lambda>sent g y. \<exists>ws. snd y = sent @ ws
                  \<and> (\<forall>sent'. gen_loop sent' g = Some (fst y, sent' @ ws))",
     OF _ assms], goal_cases)
  case (1 loop sent nxt y)
  show ?case
  proof (cases nxt)
    case (Done final)
    with 1(2) have "y = (final, sent)" by simp
    then show ?thesis using Done by (simp add: gen_loop_Done)
  next
    case (Yield result k)
    show ?thesis
    proof (cases result)
      case (Err e)
      with Yield 1(2) have "y = (Err e, sent)" by simp
      then show ?thesis using Yield Err by (simp add: gen_loop_Yield_Err)
    next
      case (Ok v)
      with Yield 1(2) have "loop (sent @ [v]) (k v) = Some y" by simp
      then obtain ws where
        ws: "snd y = (sent @ [v]) @ ws"
            "\<forall>sent'. gen_loop sent' (k v) = Some (fst y, sent' @ ws)"
        using 1(1) by blast
      have "snd y = sent @ (v # ws)" using ws(1) by simp
      moreover have "\<forall>sent'. gen_loop sent' nxt = Some (fst y, sent' @ (v # ws))"
        using ws(2) Yield Ok by (simp add: gen_loop_Yield_Ok)
      ultimately show ?thesis by blast
    qed
  qed
qed

lemma gen_log_irrelevant:
  "map_option fst (gen_loop sent g) = map_option fst (gen_loop sent' g)"
proof (cases "gen_loop sent g")
  case None
  have "gen_loop sent' g = None"
  proof (rule ccontr)
    assume "gen_loop sent' g \<noteq> None"
    then obtain y where "gen_loop sent' g = Some y" by blast
    from gen_loop_log [OF this] have "gen_loop sent g \<noteq> None" by auto
    with None show False by simp
  qed
  with None show ?thesis by simp
next
  case (Some y)
  from gen_loop_log [OF this] have "gen_loop sent' g = Some (fst y, sent' @ drop (length sent) (snd y))"
    by auto
  with Some show ?thesis by simp
qed

lemma gen_Yield_Ok: "gen (Yield (Ok v) k) = gen (k v)"
  unfolding gen_def gen_loop_Yield_Ok by (rule gen_log_irrelevant)

text \<open>
  Claim C2. After a yielded success the loop resumes the procedure with the payload
  of that success; a procedure that yields nothing and returns an outcome gives that
  outcome; and if the procedure hands over \<open>n\<close> successes and then returns an outcome,
  that outcome is the overall result and the values sent in are the \<open>n\<close> payloads.
\<close>

theorem gen_success_path:
  "gen (Yield (Ok v) k) = gen (k v)
   \<and> gen_loop sent (Yield (Ok v) k) = gen_loop (sent @ [v]) (k v)
   \<and> gen (Done final) = Some final
   \<and> (drive n started = Some (vs, Done final) \<longrightarrow>
        gen started = Some final \<and> gen_loop [] started = Some (final, vs))"
proof (intro conjI impI)
  show "gen (Yield (Ok v) k) = gen (k v)"
    by (rule gen_Yield_Ok)
  show "gen_loop sent (Yield (Ok v) k) = gen_loop (sent @ [v]) (k v)"
    by (rule gen_loop_Yield_Ok)
  show "gen (Done final) = Some final"
    by (simp add: gen_def gen_loop_Done)
next
  assume d: "drive n started = Some (vs, Done final)"
  have "gen_loop [] started = gen_loop ([] @ vs) (Done final)"
    using d by (rule gen_loop_drive)
  then show "gen_loop [] started = Some (final, vs)"
    by (simp add: gen_loop_Done)
  then show "gen started = Some final"
    by (simp add: gen_def)
qed

theorem gen_success_path_witness:
  "drive 2 (Yield (Ok (10::nat)) (\<lambda>a. Yield (Ok 20) (\<lambda>b. Done (Ok (a + b) :: (nat, string) Result))))
     = Some ([10, 20], Done (Ok 30))
   \<and> gen (Yield (Ok (10::nat)) (\<lambda>a. Yield (Ok 20) (\<lambda>b. Done (Ok (a + b) :: (nat, string) Result))))
     = Some (Ok 30)
   \<and> gen_loop [] (Yield (Ok (10::nat)) (\<lambda>a. Yield (Ok 20) (\<lambda>b. Done (Ok (a + b) :: (nat, string) Result))))
     = Some (Ok 30, [10, 20])"
proof -
  let ?g = "Yield (Ok (10::nat)) (\<lambda>a. Yield (Ok 20) (\<lambda>b. Done (Ok (a + b) :: (nat, string) Result)))"
  have d: "drive 2 ?g = Some ([10, 20], Done (Ok 30))"
    by (simp add: numeral_2_eq_2)
  have r: "gen ?g = Some (Ok 30) \<and> gen_loop [] ?g = Some (Ok 30, [10, 20])"
    by (rule gen_success_path [where n = 2 and started = ?g and vs = "[10, 20]" and final = "Ok 30",
          THEN conjunct2, THEN conjunct2, THEN conjunct2, THEN mp, OF d])
  from d r show ?thesis by (rule conjI)
qed

text \<open>
  Claim C3, as amended. The iterator of a success yields nothing and completes with the
  value. The iterator of a failure yields the failure itself, once; when it is resumed it
  completes with the value it is resumed with, whatever that value is.
\<close>

theorem iterator_completes_with_sent_value:
  "consume xs (Ok_iterator v) = ([], Some v)
   \<and> consume [] (Err_iterator e) = ([Err e], None)
   \<and> consume (x # xs) (Err_iterator e) = ([Err e], Some x)
   \<and> resume (Err_iterator e) x = Done (Some x)"
  by (cases xs) (simp_all add: Ok_iterator_def Err_iterator_def resume_def)

text \<open>
  Claim C3 as stated has the iterator of a failure complete with that same failure. A
  consumer that iterates it as \<^verbatim>\<open>for ... of\<close> does, resuming with \<^verbatim>\<open>undefined\<close>, sees it
  complete with \<^verbatim>\<open>undefined\<close> instead.
\<close>

theorem Err_iterator_completion_counterexample:
  "consume [JSUndefined]
     (Err_iterator ''boom'' :: ((nat, string) Result, (nat, string) Result JSValue,
        (nat, string) Result JSValue) Generator)
   = ([Err ''boom''], Some JSUndefined)
   \<and> consume [JSUndefined]
     (Err_iterator ''boom'' :: ((nat, string) Result, (nat, string) Result JSValue,
        (nat, string) Result JSValue) Generator)
   \<noteq> ([Err ''boom''], Some (JSOther (Err ''boom'')))"
  by (simp add: Err_iterator_def)

subsection \<open>Double arithmetic on integers\<close>

lemma bit_length_0 [simp]: "bit_length 0 = 0"
  by (simp add: bit_length.simps)

lemma bit_length_pos: "0 < n \<Longrightarrow> bit_length n = Suc (bit_length (n div 2))"
  by (subst bit_length.simps) simp

lemma bit_length_lower: "0 < n \<Longrightarrow> 2 ^ (bit_length n - 1) \<le> n"
proof (induction n rule: less_induct)
  case (less n)
  show ?case
  proof (cases "n div 2 = 0")
    case True
    with less.prems have "n = 1" by (simp add: div_eq_0_iff)
    then show ?thesis by (simp add: bit_length_pos)
  next
    case False
    then have pos: "0 < n div 2" by simp
    have "n div 2 < n" using less.prems by simp
    then have "2 ^ (bit_length (n div 2) - 1) \<le> n div 2" using pos by (rule less.IH)
    then have "2 * 2 ^ (bit_length (n div 2) - 1) \<le> n" by linarith
    moreover have "0 < bit_length (n div 2)" using pos by (simp add: bit_length_pos)
    ultimately show ?thesis using less.prems
      by (simp add: bit_length_pos flip: power_Suc)
  qed
qed

lemma bit_length_le: "n < 2 ^ k \<Longrightarrow> bit_length n \<le> k"
proof (rule ccontr)
  assume n: "n < 2 ^ k" and "\<not> bit_length n \<le> k"
  then have k: "k \<le> bit_length n - 1" by simp
  have "0 < n" using \<open>\<not> bit_length n \<le> k\<close> by (cases "n = 0") simp_all
  then have "2 ^ (bit_length n - 1) \<le> n" by (rule bit_length_lower)
  moreover have "(2::nat) ^ k \<le> 2 ^ (bit_length n - 1)" using k by (simp add: power_increasing)
  ultimately have "2 ^ k \<le> n" by (rule order_trans [rotated])
  with n show False by simp
qed

lemma bit_length_shift: "0 < n \<Longrightarrow> bit_length (n * 2 ^ i) = bit_length n + i"
proof (induction i)
  case 0
  then show ?case by simp
next
  case (Suc i)
  have "bit_length (n * 2 ^ Suc i) = Suc (bit_length ((n * 2 ^ Suc i) div 2))"
    using Suc.prems by (intro bit_length_pos) simp
  also have "(n * 2 ^ Suc i) div 2 = n * 2 ^ i" by simp
  finally show ?case using Suc by simp
qed

text \<open>An integer whose significand fits is not changed by rounding.\<close>

lemma round53_exact:
  assumes "nat \<bar>x\<bar> mod 2 ^ (bit_length (nat \<bar>x\<bar>) - 53) = 0"
  shows "round53 x = x"
proof -
  let ?a = "nat \<bar>x\<bar>" and ?e = "bit_length (nat \<bar>x\<bar>) - 53"
  have "2 ^ ?e dvd ?a" using assms by (simp add: mod_eq_0_iff_dvd)
  then have "?a div 2 ^ ?e * 2 ^ ?e = ?a" by (rule dvd_div_mult_self)
  then have "round53 x = sgn x * int ?a"
    using assms by (simp only: round53_def Let_def) simp
  also have "int ?a = \<bar>x\<bar>" by simp
  finally show ?thesis by (simp add: mult_sgn_abs)
qed

lemma small_significand:
  assumes x: "\<bar>x\<bar> \<le> 2 ^ 53"
  shows "nat \<bar>x\<bar> mod 2 ^ (bit_length (nat \<bar>x\<bar>) - 53) = 0"
proof (cases "\<bar>x\<bar> = 2 ^ 53")
  case True
  then have a: "nat \<bar>x\<bar> = 1 * 2 ^ 53" by (simp add: nat_power_eq)
  have "bit_length (nat \<bar>x\<bar>) = bit_length 1 + 53"
    unfolding a by (rule bit_length_shift) simp
  then have "bit_length (nat \<bar>x\<bar>) - 53 = 1" by (simp add: bit_length_pos)
  then show ?thesis using a by simp
next
  case False
  with x have "nat \<bar>x\<bar> < 2 ^ 53" by (simp add: nat_less_iff)
  then have "bit_length (nat \<bar>x\<bar>) \<le> 53" by (rule bit_length_le)
  then show ?thesis by simp
qed

lemma round53_small: "\<bar>x\<bar> \<le> 2 ^ 53 \<Longrightarrow> round53 x = x"
  by (rule round53_exact) (rule small_significand)



lemma round53_negative:
  assumes "x < 0"
  shows "round53 x < 0"
proof -
  let ?a = "nat \<bar>x\<bar>"
  let ?e = "bit_length ?a - 53"
  have pos: "0 < ?a" using assms by simp
  have "(2::nat) ^ ?e \<le> 2 ^ (bit_length ?a - 1)" by (rule power_increasing) simp_all
  also have "\<dots> \<le> ?a" using pos by (rule bit_length_lower)
  finally have "0 < ?a div 2 ^ ?e" by (simp add: div_greater_zero_iff)
  then show ?thesis using assms by (simp add: round53_def Let_def sgn_if)
qed

lemma round53_nonpositive: "x \<le> 0 \<Longrightarrow> round53 x \<le> 0"
  by (simp add: round53_def Let_def sgn_if mult_le_0_iff)





lemma increment_small: "a < 2 ^ 53 \<Longrightarrow> increment a = Suc a"
proof -
  assume "a < 2 ^ 53"
  then have "int a < 2 ^ 53" by (simp add: of_nat_less_numeral_power_cancel_iff)
  then have "\<bar>int a + 1\<bar> \<le> 2 ^ 53" by simp
  then have "round53 (int a + 1) = int a + 1" by (rule round53_small)
  then show ?thesis by (simp add: increment_def)
qed



text \<open>A negative \<^verbatim>\<open>times\<close> gives a budget that \<open>0\<close> is not below.\<close>

lemma budget_of_negative_times:
  assumes "t < 0"
  shows "\<not> js_less (Finite 0) (js_plus (round_double t) (Finite 1))"
proof -
  have neg: "round53 t < 0" using assms by (rule round53_negative)
  show ?thesis
  proof (cases "2 ^ 1024 \<le> \<bar>round53 t\<bar>")
    case True
    with neg show ?thesis by (simp add: round_double_def Let_def)
  next
    case False
    from neg have "round53 t + 1 \<le> 0" by simp
    then have "round53 (round53 t + 1) \<le> 0" by (rule round53_nonpositive)
    with False neg show ?thesis by (simp add: round_double_def Let_def)
  qed
qed

lemma bit_length_upper: "n < 2 ^ bit_length n"
proof (induction n rule: less_induct)
  case (less n)
  show ?case
  proof (cases "n = 0")
    case True
    then show ?thesis by simp
  next
    case False
    then have "n div 2 < n" by simp
    then have "n div 2 < 2 ^ bit_length (n div 2)" by (rule less.IH)
    then have "n < 2 * 2 ^ bit_length (n div 2)" by linarith
    with False show ?thesis by (simp add: bit_length_pos)
  qed
qed

lemma bit_length_eq:
  assumes lower: "2 ^ k \<le> n" and upper: "n < 2 ^ Suc k"
  shows "bit_length n = Suc k"
proof (rule antisym)
  show "bit_length n \<le> Suc k" using upper by (rule bit_length_le)
  show "Suc k \<le> bit_length n"
  proof (rule ccontr)
    assume "\<not> Suc k \<le> bit_length n"
    then have "bit_length n \<le> k" by simp
    then have "(2::nat) ^ bit_length n \<le> 2 ^ k" by (intro power_increasing) simp_all
    with bit_length_upper [of n] lower show False by simp
  qed
qed

lemma round53_at_limit: "round53 (2 ^ 53 + 1) = 2 ^ 53"
proof -
  have "bit_length (nat \<bar>2 ^ 53 + 1\<bar>) = Suc 53"
    by (rule bit_length_eq) simp_all
  then show ?thesis by (simp add: round53_def Let_def)
qed

text \<open>
  The counter never leaves the natural numbers up to \<open>2 ^ 53\<close>.
\<close>

lemma increment_bounded: "a \<le> 2 ^ 53 \<Longrightarrow> increment a \<le> 2 ^ 53"
proof (cases "a = 2 ^ 53")
  case True
  then have "int a + 1 = 2 ^ 53 + 1" by simp
  then have "increment a = nat (round53 (2 ^ 53 + 1))" by (simp only: increment_def)
  also have "\<dots> = nat (2 ^ 53)" by (simp only: round53_at_limit)
  finally show ?thesis by simp
next
  case False
  assume "a \<le> 2 ^ 53"
  with False have "a < 2 ^ 53" by simp
  then show ?thesis by (simp add: increment_small)
qed

subsection \<open>\<^verbatim>\<open>tryPromise\<close>\<close>

text \<open>
  One iteration of the \<^verbatim>\<open>for\<close> loop, by the branch it takes.
\<close>

lemma tryPromise_loop_exhausted:
  "\<not> js_less (Finite (int attempt)) maxAttempts \<Longrightarrow>
   tryPromise_loop config maxAttempts attempt w =
     Some (Err (JSErrorObject (Error ''Unexpected retry error'')), w)"
  by (subst tryPromise_loop.simps) simp














text \<open>
  Claim C10. With a negative \<^verbatim>\<open>retry.times\<close> the budget \<^verbatim>\<open>times + 1\<close> is not positive: the
  thunk is never invoked, no delay is requested, and the call returns the failure of a
  fresh \<^verbatim>\<open>Error\<close> with the message \<^verbatim>\<open>Unexpected retry error\<close>.
\<close>

theorem tryPromise_negative_times:
  assumes "retry config = Some r" and "retry_times r < 0"
  shows "tryPromise config =
    Some (Err (JSErrorObject (Error ''Unexpected retry error'')), \<lparr>calls = 0, timers = []\<rparr>)"
proof -
  have "\<not> js_less (Finite (int 0)) (js_plus (round_double (retry_times r)) (Finite 1))"
    using budget_of_negative_times [OF assms(2)] by simp
  then show ?thesis
    using assms(1) by (simp add: tryPromise_def tryPromise_loop_exhausted)
qed

theorem tryPromise_negative_times_witness:
  "tryPromise
     \<lparr>tryFn = (\<lambda>i. Inr ''never called'') :: nat \<Rightarrow> unit JSValue + string,
      catchFn = None,
      retry = Some \<lparr>retry_times = - 1, retry_delayMs = 10, retry_backoff = None\<rparr>\<rparr>
   = Some (Err (JSErrorObject (Error ''Unexpected retry error'')), \<lparr>calls = 0, timers = []\<rparr>)"
  by (rule tryPromise_negative_times
        [where r = "\<lparr>retry_times = - 1, retry_delayMs = 10, retry_backoff = None\<rparr>"])
     simp_all

end
